theory Spec2Isabelle
  imports Complex_Main
begin

section \<open>Barcode sheets: the A4 grid layout and its Excel collaborators\<close>

text \<open>
  The development embeds \<^verbatim>\<open>generate_pdf_from_numbers\<close> of \<^verbatim>\<open>barcode_app.py\<close>
  (whose layout loop is repeated line by line in \<^verbatim>\<open>generate_pdf_from_excel\<close> of
  \<^verbatim>\<open>eg.py\<close>), the reading of column A in both files and
  \<^verbatim>\<open>create_excel_api\<close>.

  Python floats are idealised as real numbers in the layout arithmetic: rounding is not
  modelled. The value of a worksheet cell can also be an infinite float or a NaN. Python
  integers are \<open>int\<close>; \<open>div\<close> and \<open>mod\<close> on \<open>int\<close> round towards minus infinity
  and take the sign of the divisor, as Python's \<^verbatim>\<open>//\<close> and \<^verbatim>\<open>%\<close> do. Division
  by zero raises in Python and is an explicit error value here.
\<close>

subsection \<open>Exceptions\<close>

datatype py_error = ZeroDivisionError | ValueError | TypeError | OverflowError | OSError

subsection \<open>The canvas\<close>

text \<open>
  The PDF canvas keeps a current page; each drawing call lands on the current page and
  \<^verbatim>\<open>showPage\<close> moves to the next one. The canvas is recorded as the number of the
  current page together with the drawing calls made so far, each with the page it
  landed on.
\<close>

datatype canvas_op =
    DrawImage string real real real real
  | SetFont string nat
  | DrawString real real string

record canvas =
  page_no :: nat
  drawn :: "(nat \<times> canvas_op) list"

definition new_canvas :: canvas where
  "new_canvas = \<lparr>page_no = 0, drawn = []\<rparr>"

definition showPage :: "canvas \<Rightarrow> canvas" where
  "showPage c = c\<lparr>page_no := Suc (page_no c)\<rparr>"

definition drawImage :: "canvas \<Rightarrow> string \<Rightarrow> real \<Rightarrow> real \<Rightarrow> real \<Rightarrow> real \<Rightarrow> canvas" where
  "drawImage c path x y w h = c\<lparr>drawn := drawn c @ [(page_no c, DrawImage path x y w h)]\<rparr>"

definition setFont :: "canvas \<Rightarrow> string \<Rightarrow> nat \<Rightarrow> canvas" where
  "setFont c name pt = c\<lparr>drawn := drawn c @ [(page_no c, SetFont name pt)]\<rparr>"

definition drawString :: "canvas \<Rightarrow> real \<Rightarrow> real \<Rightarrow> string \<Rightarrow> canvas" where
  "drawString c x y s = c\<lparr>drawn := drawn c @ [(page_no c, DrawString x y s)]\<rparr>"

subsection \<open>External collaborators\<close>

text \<open>
  What the function takes from outside the repository: the length unit \<^verbatim>\<open>mm\<close> of the
  PDF library (in points), the directory \<^verbatim>\<open>tempfile.mkdtemp\<close> returns, whether
  rendering and saving the barcode image of a label succeeds (the first
  \<^verbatim>\<open>try\<close> block), and whether drawing that image on the canvas succeeds (the second
  \<^verbatim>\<open>try\<close> block). Both outcomes depend on the label only: the dictionary of images is
  keyed by the label, and a label that occurs twice has one image.
\<close>

record env =
  mm :: real
  temp_dir :: string
  image_ok :: "string \<Rightarrow> bool"
  draw_ok :: "string \<Rightarrow> bool"

text \<open>The file system, as far as the function touches it: a directory and the files in it.\<close>

type_synonym filesystem = "string \<rightharpoonup> string set"

definition mkdtemp :: "filesystem \<Rightarrow> string \<Rightarrow> filesystem" where
  "mkdtemp fs d = fs(d \<mapsto> {})"

definition save_file :: "filesystem \<Rightarrow> string \<Rightarrow> string \<Rightarrow> filesystem" where
  "save_file fs d f = fs(d \<mapsto> insert f (case fs d of None \<Rightarrow> {} | Some fl \<Rightarrow> fl))"

definition rmtree :: "filesystem \<Rightarrow> string \<Rightarrow> filesystem" where
  "rmtree fs d = fs(d := None)"

subsection \<open>Page geometry\<close>

text \<open>
  Modelled from the spec: the page size constant \<^verbatim>\<open>A4\<close> belongs to the PDF library and
  is not part of the repository; the spec gives it as 210 mm by 297 mm.
\<close>

definition A4 :: "real \<Rightarrow> real \<times> real" where
  "A4 u = (210 * u, 297 * u)"

record geometry =
  page_width :: real
  page_height :: real
  margin_x :: real
  margin_y :: real
  cols :: int
  rows :: int

definition page_geometry :: "real \<Rightarrow> int \<Rightarrow> int \<Rightarrow> geometry" where
  "page_geometry u c r =
     \<lparr>page_width = fst (A4 u), page_height = snd (A4 u),
      margin_x = 12 * u, margin_y = 15 * u, cols = c, rows = r\<rparr>"

definition available_width :: "geometry \<Rightarrow> real" where
  "available_width g = page_width g - (2 * margin_x g)"

definition available_height :: "geometry \<Rightarrow> real" where
  "available_height g = page_height g - (2 * margin_y g)"

definition cell_width :: "geometry \<Rightarrow> py_error + real" where
  "cell_width g =
     (if cols g = 0 then Inl ZeroDivisionError
      else Inr (available_width g / of_int (cols g)))"

definition cell_height :: "geometry \<Rightarrow> py_error + real" where
  "cell_height g =
     (if rows g = 0 then Inl ZeroDivisionError
      else Inr (available_height g / of_int (rows g)))"

subsection \<open>Placing one label\<close>

definition image_x :: "geometry \<Rightarrow> real \<Rightarrow> int \<Rightarrow> real" where
  "image_x g cw col = margin_x g + (of_int col * cw) + (cw * 0.05)"

definition image_y :: "geometry \<Rightarrow> real \<Rightarrow> int \<Rightarrow> real" where
  "image_y g ch row = page_height g - margin_y g - (of_int (row + 1) * ch) + (ch * 0.05)"

definition barcode_width :: "real \<Rightarrow> real" where
  "barcode_width cw = cw * 0.9"

definition barcode_height :: "real \<Rightarrow> real" where
  "barcode_height ch = ch * 0.75"

definition text_x :: "geometry \<Rightarrow> real \<Rightarrow> int \<Rightarrow> real" where
  "text_x g cw col = image_x g cw col + (barcode_width cw / 2) - 15"

definition text_y :: "geometry \<Rightarrow> real \<Rightarrow> int \<Rightarrow> real" where
  "text_y g ch row = image_y g ch row - (ch * 0.15)"

text \<open>
  Lines 162 to 176 of \<^verbatim>\<open>barcode_app.py\<close>: the image, the font and the caption, or
  nothing at all when drawing the image raises.
\<close>

definition draw_label ::
  "env \<Rightarrow> geometry \<Rightarrow> real \<Rightarrow> real \<Rightarrow> canvas \<Rightarrow> int \<Rightarrow> int \<Rightarrow> string \<Rightarrow> string \<Rightarrow> canvas" where
  "draw_label e g cw ch c row col barcode_path number =
     (if draw_ok e number
      then drawString
             (setFont
                (drawImage c barcode_path (image_x g cw col) (image_y g ch row)
                   (barcode_width cw) (barcode_height ch))
                ''Helvetica'' 8)
             (text_x g cw col) (text_y g ch row) number
      else c)"

text \<open>
  The position arithmetic of lines 154 and 155: the number of labels on a page, the
  slot of the label with index \<open>idx\<close> on its page, and the row and column of that slot.
\<close>

definition capacity :: "geometry \<Rightarrow> int" where
  "capacity g = cols g * rows g"

definition slot :: "geometry \<Rightarrow> nat \<Rightarrow> int" where
  "slot g idx = int idx mod capacity g"

definition row_of :: "geometry \<Rightarrow> nat \<Rightarrow> int" where
  "row_of g idx = slot g idx div cols g"

definition col_of :: "geometry \<Rightarrow> nat \<Rightarrow> int" where
  "col_of g idx = slot g idx mod cols g"

text \<open>
  The body of the layout loop, lines 151 to 176, for one pair of \<^verbatim>\<open>enumerate(numbers)\<close>.
  The loop is only reached with \<open>cols g \<noteq> 0\<close> and \<open>rows g \<noteq> 0\<close>: the two divisions
  before it have raised otherwise.
\<close>

definition place ::
  "env \<Rightarrow> (string \<rightharpoonup> string) \<Rightarrow> geometry \<Rightarrow> real \<Rightarrow> real \<Rightarrow> canvas \<Rightarrow> nat \<times> string \<Rightarrow> canvas" where
  "place e barcode_images g cw ch c = (\<lambda>(idx, number).
     case barcode_images number of
       None \<Rightarrow> c
     | Some barcode_path \<Rightarrow>
         let row = row_of g idx;
             col = col_of g idx;
             break = (idx > 0 \<and> slot g idx = 0);
             c1 = (if break then showPage c else c);
             row1 = (if break then 0 else row);
             col1 = (if break then 0 else col)
         in draw_label e g cw ch c1 row1 col1 barcode_path number)"

definition layout_loop ::
  "env \<Rightarrow> (string \<rightharpoonup> string) \<Rightarrow> geometry \<Rightarrow> real \<Rightarrow> real \<Rightarrow> canvas \<Rightarrow> string list \<Rightarrow> canvas" where
  "layout_loop e barcode_images g cw ch c numbers =
     foldl (place e barcode_images g cw ch) c (List.enumerate 0 numbers)"

subsection \<open>Generating the images\<close>

definition barcode_path_of :: "string \<Rightarrow> string \<Rightarrow> string" where
  "barcode_path_of d number = d @ ''/'' @ ''barcode_'' @ number @ ''.png''"

text \<open>Lines 127 to 135: a label whose image cannot be produced gets no dictionary entry.\<close>

fun generate_images ::
  "env \<Rightarrow> string list \<Rightarrow> (string \<rightharpoonup> string) \<times> filesystem \<Rightarrow> (string \<rightharpoonup> string) \<times> filesystem" where
  "generate_images e [] s = s"
| "generate_images e (number # rest) (barcode_images, fs) =
     generate_images e rest
       (if image_ok e number
        then (barcode_images(number \<mapsto> barcode_path_of (temp_dir e) number),
              save_file fs (temp_dir e) (barcode_path_of (temp_dir e) number))
        else (barcode_images, fs))"

subsection \<open>The whole function\<close>

text \<open>
  \<^verbatim>\<open>generate_pdf_from_numbers(numbers, cols, rows)\<close>: the temporary directory, the
  images, the geometry, the loop, and the \<^verbatim>\<open>finally\<close> block that removes the
  directory on every path. The result is the canvas that \<^verbatim>\<open>c.save()\<close> writes out, or
  the exception that leaves the function.
\<close>

definition generate_pdf_from_numbers ::
  "env \<Rightarrow> filesystem \<Rightarrow> string list \<Rightarrow> int \<Rightarrow> int \<Rightarrow> (py_error + canvas) \<times> filesystem" where
  "generate_pdf_from_numbers e fs numbers c r =
     (let fs1 = mkdtemp fs (temp_dir e);
          (barcode_images, fs2) = generate_images e numbers (Map.empty, fs1);
          g = page_geometry (mm e) c r;
          result =
            (case cell_width g of
               Inl err \<Rightarrow> Inl err
             | Inr cw \<Rightarrow>
                 (case cell_height g of
                    Inl err \<Rightarrow> Inl err
                  | Inr ch \<Rightarrow> Inr (layout_loop e barcode_images g cw ch new_canvas numbers)))
      in (result, rmtree fs2 (temp_dir e)))"

subsection \<open>What one label contributes to the canvas\<close>

text \<open>
  The drawing calls \<open>draw_label\<close> issues for one label, without the page they land on
  (lemma \<open>draw_label_drawn\<close> below relates the two).
\<close>

definition label_ops ::
  "env \<Rightarrow> geometry \<Rightarrow> real \<Rightarrow> real \<Rightarrow> int \<Rightarrow> int \<Rightarrow> string \<Rightarrow> string \<Rightarrow> canvas_op list" where
  "label_ops e g cw ch row col barcode_path number =
     (if draw_ok e number
      then [DrawImage barcode_path (image_x g cw col) (image_y g ch row)
              (barcode_width cw) (barcode_height ch),
            SetFont ''Helvetica'' 8,
            DrawString (text_x g cw col) (text_y g ch row) number]
      else [])"

text \<open>
  The same calls inside \<open>generate_pdf_from_numbers e fs numbers c r\<close>, where the geometry,
  the cell size and the image path are the ones that function computes.
\<close>

definition slot_ops :: "env \<Rightarrow> int \<Rightarrow> int \<Rightarrow> int \<Rightarrow> int \<Rightarrow> string \<Rightarrow> canvas_op list" where
  "slot_ops e c r row col number =
     (let g = page_geometry (mm e) c r
      in label_ops e g (available_width g / of_int c) (available_height g / of_int r)
           row col (barcode_path_of (temp_dir e) number) number)"

text \<open>
  The labels that start a page after the first one (index positive, slot zero) all have
  an image.
\<close>

definition starts_ok :: "(string \<Rightarrow> bool) \<Rightarrow> geometry \<Rightarrow> string list \<Rightarrow> bool" where
  "starts_ok has_image g numbers =
     list_all (\<lambda>(i, n). 0 < i \<and> slot g i = 0 \<longrightarrow> has_image n) (List.enumerate 0 numbers)"

text \<open>The pages on which something was drawn.\<close>

definition pages_used :: "canvas \<Rightarrow> nat set" where
  "pages_used c = fst ` set (drawn c)"

definition page_count :: "canvas \<Rightarrow> nat" where
  "page_count c = card (pages_used c)"

text \<open>
  The cell of the spec, in the coordinates of the canvas (origin at the bottom left):
  its left edge \<open>margin_x + col * cell_width\<close>, its top edge at \<open>margin_y + row * cell_height\<close>
  from the top of the page, and its bottom edge one cell height lower.
\<close>

definition spec_cell_left :: "geometry \<Rightarrow> real \<Rightarrow> int \<Rightarrow> real" where
  "spec_cell_left g cw col = margin_x g + of_int col * cw"

definition spec_cell_top :: "geometry \<Rightarrow> real \<Rightarrow> int \<Rightarrow> real" where
  "spec_cell_top g ch row = page_height g - (margin_y g + of_int row * ch)"

definition spec_cell_bottom :: "geometry \<Rightarrow> real \<Rightarrow> int \<Rightarrow> real" where
  "spec_cell_bottom g ch row = page_height g - margin_y g - (of_int row + 1) * ch"

text \<open>
  A placement is a drawing call with its page, leaving out the path of the image file,
  which lies in the temporary directory of the call.
\<close>

fun without_path :: "canvas_op \<Rightarrow> canvas_op" where
  "without_path (DrawImage p x y w h) = DrawImage [] x y w h"
| "without_path (SetFont f pt) = SetFont f pt"
| "without_path (DrawString x y s) = DrawString x y s"

definition placements :: "canvas \<Rightarrow> (nat \<times> canvas_op) list" where
  "placements c = map (\<lambda>(pg, op). (pg, without_path op)) (drawn c)"

section \<open>Reading the labels from a sheet\<close>

subsection \<open>Python values and the built-in conversions\<close>

text \<open>
  The values a worksheet cell or a JSON field can hold. \<open>PyObject\<close> stands for every
  other object (a date, a list, a dictionary).
\<close>

datatype py_float = Finite real | Infinite | NaN

datatype py_value =
    PyNone
  | PyBool bool
  | PyInt int
  | PyFloat py_float
  | PyStr string
  | PyObject

text \<open>
  Python's \<^verbatim>\<open>int(v)\<close>. The grammar of integer literals in strings belongs to the
  language and is a parameter: \<open>parse s\<close> is the integer \<open>s\<close> denotes, if any. A finite
  float is truncated towards zero; an infinite one (the workbook reader returns it for a
  numeric cell beyond the range of a double) raises \<^verbatim>\<open>OverflowError\<close>, a NaN
  \<^verbatim>\<open>ValueError\<close>. Every other object raises \<^verbatim>\<open>TypeError\<close>.
\<close>

definition toward_zero :: "real \<Rightarrow> int" where
  "toward_zero x = (if 0 \<le> x then \<lfloor>x\<rfloor> else \<lceil>x\<rceil>)"

fun py_int :: "(string \<Rightarrow> int option) \<Rightarrow> py_value \<Rightarrow> py_error + int" where
  "py_int parse PyNone = Inl TypeError"
| "py_int parse (PyBool b) = Inr (if b then 1 else 0)"
| "py_int parse (PyInt i) = Inr i"
| "py_int parse (PyFloat (Finite x)) = Inr (toward_zero x)"
| "py_int parse (PyFloat Infinite) = Inl OverflowError"
| "py_int parse (PyFloat NaN) = Inl ValueError"
| "py_int parse (PyStr s) = (case parse s of None \<Rightarrow> Inl ValueError | Some i \<Rightarrow> Inr i)"
| "py_int parse PyObject = Inl TypeError"

text \<open>Python's \<^verbatim>\<open>str(i)\<close> for an integer: decimal digits, with a minus sign when negative.\<close>

definition digit_char :: "nat \<Rightarrow> char" where
  "digit_char d = ''0123456789'' ! d"

fun nat_digits :: "nat \<Rightarrow> string" where
  "nat_digits n = (if n < 10 then [digit_char n] else nat_digits (n div 10) @ [digit_char (n mod 10)])"

declare nat_digits.simps [simp del]

definition py_str :: "int \<Rightarrow> string" where
  "py_str i = (if i < 0 then ''-'' @ nat_digits (nat (- i)) else nat_digits (nat i))"

subsection \<open>Reading column A\<close>

text \<open>Column A of the active worksheet, and the number of its last row.\<close>

record worksheet =
  max_row :: nat
  column_a :: "nat \<Rightarrow> py_value"

text \<open>
  \<^verbatim>\<open>generate_pdf_api\<close>, lines 416 to 423 of \<^verbatim>\<open>barcode_app.py\<close>: the bare
  \<^verbatim>\<open>except\<close> swallows every exception of the conversion.
\<close>

definition api_read_cell :: "(string \<Rightarrow> int option) \<Rightarrow> worksheet \<Rightarrow> string list \<Rightarrow> nat \<Rightarrow> string list" where
  "api_read_cell parse ws numbers row =
     (let cell_value = column_a ws row
      in if cell_value \<noteq> PyNone
         then (case py_int parse cell_value of
                 Inr i \<Rightarrow> numbers @ [py_str i]
               | Inl err \<Rightarrow> numbers)
         else numbers)"

definition api_read_numbers :: "(string \<Rightarrow> int option) \<Rightarrow> worksheet \<Rightarrow> string list" where
  "api_read_numbers parse ws = foldl (api_read_cell parse ws) [] [2..<max_row ws + 1]"

text \<open>
  \<^verbatim>\<open>generate_pdf_from_excel\<close>, lines 112 to 120 of \<^verbatim>\<open>eg.py\<close>: only
  \<^verbatim>\<open>ValueError\<close> and \<^verbatim>\<open>TypeError\<close> are caught; any other exception leaves the loop.
\<close>

definition script_read_cell ::
  "(string \<Rightarrow> int option) \<Rightarrow> worksheet \<Rightarrow> py_error + string list \<Rightarrow> nat \<Rightarrow> py_error + string list" where
  "script_read_cell parse ws acc row =
     (case acc of
        Inl err \<Rightarrow> Inl err
      | Inr numbers \<Rightarrow>
          (let cell_value = column_a ws row
           in if cell_value \<noteq> PyNone
              then (case py_int parse cell_value of
                      Inr i \<Rightarrow> Inr (numbers @ [py_str i])
                    | Inl ValueError \<Rightarrow> Inr numbers
                    | Inl TypeError \<Rightarrow> Inr numbers
                    | Inl err \<Rightarrow> Inl err)
              else Inr numbers))"

definition script_read_numbers :: "(string \<Rightarrow> int option) \<Rightarrow> worksheet \<Rightarrow> py_error + string list" where
  "script_read_numbers parse ws = foldl (script_read_cell parse ws) (Inr []) [2..<max_row ws + 1]"

text \<open>
  The cells a reading keeps, the label of a kept cell, and the cells of column A from
  row 2 to the last row.
\<close>

definition kept :: "(string \<Rightarrow> int option) \<Rightarrow> py_value \<Rightarrow> bool" where
  "kept parse v = (v \<noteq> PyNone \<and> \<not> isl (py_int parse v))"

definition label_of :: "(string \<Rightarrow> int option) \<Rightarrow> py_value \<Rightarrow> string" where
  "label_of parse v = py_str (projr (py_int parse v))"

definition cells :: "worksheet \<Rightarrow> py_value list" where
  "cells ws = map (column_a ws) [2..<max_row ws + 1]"

section \<open>The standalone script\<close>

text \<open>
  The layout loop of \<^verbatim>\<open>generate_pdf_from_excel\<close>, lines 172 to 208 of \<^verbatim>\<open>eg.py\<close>: the
  loop of \<^verbatim>\<open>barcode_app.py\<close> with two counters beside the canvas, the labels drawn and
  the number of the current page counted from 1.
\<close>

definition script_place ::
  "env \<Rightarrow> (string \<rightharpoonup> string) \<Rightarrow> geometry \<Rightarrow> real \<Rightarrow> real \<Rightarrow> canvas \<times> nat \<times> nat \<Rightarrow> nat \<times> string
     \<Rightarrow> canvas \<times> nat \<times> nat" where
  "script_place e barcode_images g cw ch = (\<lambda>(c, barcode_count, page_num) (idx, number).
     case barcode_images number of
       None \<Rightarrow> (c, barcode_count, page_num)
     | Some barcode_path \<Rightarrow>
         let row = row_of g idx;
             col = col_of g idx;
             break = (idx > 0 \<and> slot g idx = 0);
             c1 = (if break then showPage c else c);
             page_num1 = (if break then page_num + 1 else page_num);
             row1 = (if break then 0 else row);
             col1 = (if break then 0 else col)
         in (draw_label e g cw ch c1 row1 col1 barcode_path number,
             (if draw_ok e number then barcode_count + 1 else barcode_count),
             page_num1))"

definition script_layout_loop ::
  "env \<Rightarrow> (string \<rightharpoonup> string) \<Rightarrow> geometry \<Rightarrow> real \<Rightarrow> real \<Rightarrow> string list \<Rightarrow> canvas \<times> nat \<times> nat" where
  "script_layout_loop e barcode_images g cw ch numbers =
     foldl (script_place e barcode_images g cw ch) (new_canvas, 0, 1) (List.enumerate 0 numbers)"

text \<open>
  \<^verbatim>\<open>generate_pdf_from_excel(excel_file, pdf_file, cols, rows)\<close>: no worksheet when the
  file does not exist. The function returns without a PDF when the file is missing or
  holds no number; otherwise it writes the canvas.
\<close>

definition generate_pdf_from_excel ::
  "(string \<Rightarrow> int option) \<Rightarrow> env \<Rightarrow> filesystem \<Rightarrow> worksheet option \<Rightarrow> int \<Rightarrow> int
     \<Rightarrow> (py_error + canvas option) \<times> filesystem" where
  "generate_pdf_from_excel parse e fs excel_file c r =
     (case excel_file of
        None \<Rightarrow> (Inr None, fs)
      | Some ws \<Rightarrow>
          (case script_read_numbers parse ws of
             Inl err \<Rightarrow> (Inl err, fs)
           | Inr numbers \<Rightarrow>
               if numbers = [] then (Inr None, fs)
               else
                 (let fs1 = mkdtemp fs (temp_dir e);
                      (barcode_images, fs2) = generate_images e numbers (Map.empty, fs1);
                      g = page_geometry (mm e) c r;
                      result =
                        (case cell_width g of
                           Inl err \<Rightarrow> Inl err
                         | Inr cw \<Rightarrow>
                             (case cell_height g of
                                Inl err \<Rightarrow> Inl err
                              | Inr ch \<Rightarrow>
                                  Inr (Some (fst (script_layout_loop e barcode_images g cw ch numbers)))))
                  in (result, rmtree fs2 (temp_dir e)))))"

section \<open>Creating a workbook of consecutive numbers\<close>

text \<open>
  A workbook as \<^verbatim>\<open>create_excel_with_barcodes\<close> fills it: one row per number, from
  row 2 on, with the number in column A and either the barcode picture or the word
  Error beside it. Saving the workbook can fail.
\<close>

type_synonym workbook = "(int \<times> bool) list"

type_synonym outputs = "string \<rightharpoonup> workbook"

definition create_excel_with_barcodes ::
  "(string \<Rightarrow> bool) \<Rightarrow> (string \<Rightarrow> bool) \<Rightarrow> outputs \<Rightarrow> int list \<Rightarrow> string \<Rightarrow> py_error + outputs" where
  "create_excel_with_barcodes img_ok writable outs numbers output_path =
     (let wb = map (\<lambda>number. (number, img_ok (py_str number))) numbers
      in if writable output_path then Inr (outs(output_path \<mapsto> wb)) else Inl OSError)"

text \<open>\<^verbatim>\<open>data.get(key, default)\<close> on the JSON object of the request.\<close>

definition get_or :: "'a option \<Rightarrow> 'a \<Rightarrow> 'a" where
  "get_or field dflt = (case field of None \<Rightarrow> dflt | Some v \<Rightarrow> v)"

record create_request =
  fileName :: "string option"
  startNum :: "py_value option"
  count :: "py_value option"

datatype api_response =
    BadRequest string
  | ServerError py_error
  | ExcelCreated string int int int

text \<open>
  \<^verbatim>\<open>create_excel_api\<close>, lines 196 to 220 of \<^verbatim>\<open>barcode_app.py\<close>. The success response
  carries the file name, the count and the two ends of the range.
\<close>

definition create_excel_api ::
  "(string \<Rightarrow> int option) \<Rightarrow> (string \<Rightarrow> bool) \<Rightarrow> (string \<Rightarrow> bool) \<Rightarrow> outputs \<Rightarrow> create_request
     \<Rightarrow> api_response \<times> outputs" where
  "create_excel_api parse img_ok writable outs data =
     (let file_name = get_or (fileName data) ''barcodes.xlsx''
      in case py_int parse (get_or (startNum data) (PyInt 253310001)) of
           Inl err \<Rightarrow> (ServerError err, outs)
         | Inr start_num \<Rightarrow>
             (case py_int parse (get_or (count data) (PyInt 10)) of
                Inl err \<Rightarrow> (ServerError err, outs)
              | Inr cnt \<Rightarrow>
                  if cnt < 1 \<or> cnt > 5000
                  then (BadRequest ''Count must be between 1 and 5000'', outs)
                  else
                    (let numbers = map (\<lambda>i. start_num + int i) [0..<nat cnt]
                     in case create_excel_with_barcodes img_ok writable outs numbers file_name of
                          Inl err \<Rightarrow> (ServerError err, outs)
                        | Inr outs' \<Rightarrow>
                            (ExcelCreated file_name cnt start_num (start_num + cnt - 1), outs'))))"

section \<open>Concrete inputs for the examples\<close>

text \<open>
  Collaborators that always succeed, or that fail on one label only; an environment with
  the unit of the PDF library (72 points to the inch, 25.4 mm to the inch); and the 35
  labels from 253310001 on.
\<close>

definition all_ok :: "string \<Rightarrow> bool" where
  "all_ok n = True"

definition none_ok :: "string \<Rightarrow> bool" where
  "none_ok n = False"

definition ok_except :: "string \<Rightarrow> string \<Rightarrow> bool" where
  "ok_except bad n = (n \<noteq> bad)"

definition demo_env :: "(string \<Rightarrow> bool) \<Rightarrow> env" where
  "demo_env ok = \<lparr>mm = 360 / 127, temp_dir = ''/tmp/barcode_pdf_a'', image_ok = ok, draw_ok = all_ok\<rparr>"

definition no_files :: filesystem where
  "no_files = Map.empty"

definition labels35 :: "string list" where
  "labels35 = [''253310001'', ''253310002'', ''253310003'', ''253310004'', ''253310005'',
     ''253310006'', ''253310007'', ''253310008'', ''253310009'', ''253310010'',
     ''253310011'', ''253310012'', ''253310013'', ''253310014'', ''253310015'',
     ''253310016'', ''253310017'', ''253310018'', ''253310019'', ''253310020'',
     ''253310021'', ''253310022'', ''253310023'', ''253310024'', ''253310025'',
     ''253310026'', ''253310027'', ''253310028'', ''253310029'', ''253310030'',
     ''253310031'', ''253310032'', ''253310033'', ''253310034'', ''253310035'']"

text \<open>
  A sheet of six rows: the header, a number, an empty cell, a text that is no number, a
  text that is one, and a float. A reading of numeric strings that knows one string.
\<close>

definition demo_parse :: "string \<Rightarrow> int option" where
  "demo_parse s = (if s = ''253310007'' then Some 253310007 else None)"

definition demo_column :: "nat \<Rightarrow> py_value" where
  "demo_column row =
     (if row = 1 then PyStr ''Number''
      else if row = 2 then PyInt 253310001
      else if row = 3 then PyNone
      else if row = 4 then PyStr ''n/a''
      else if row = 5 then PyStr ''253310007''
      else if row = 6 then PyFloat (Finite 42.9)
      else PyNone)"

definition demo_sheet :: worksheet where
  "demo_sheet = \<lparr>max_row = 6, column_a = demo_column\<rparr>"

text \<open>A sheet of three rows: the header, a number, and an infinite float.\<close>

definition infinite_column :: "nat \<Rightarrow> py_value" where
  "infinite_column row =
     (if row = 1 then PyStr ''Number''
      else if row = 2 then PyInt 253310001
      else if row = 3 then PyFloat Infinite
      else PyNone)"

definition infinite_sheet :: worksheet where
  "infinite_sheet = \<lparr>max_row = 3, column_a = infinite_column\<rparr>"

definition demo_request :: "int \<Rightarrow> int \<Rightarrow> create_request" where
  "demo_request s n = \<lparr>fileName = Some ''sheet.xlsx'', startNum = Some (PyInt s), count = Some (PyInt n)\<rparr>"

definition no_outputs :: outputs where
  "no_outputs = Map.empty"

text \<open>The captions on a canvas, each with its page.\<close>

fun caption_of :: "nat \<times> canvas_op \<Rightarrow> (nat \<times> string) list" where
  "caption_of (pg, DrawString x y s) = [(pg, s)]"
| "caption_of (pg, DrawImage p x y w h) = []"
| "caption_of (pg, SetFont f pt) = []"

definition page_labels :: "canvas \<Rightarrow> (nat \<times> string) list" where
  "page_labels c = concat (map caption_of (drawn c))"

section \<open>Auxiliary facts\<close>

subsection \<open>Quotients of consecutive indices\<close>

lemma div_pred_multiple:
  fixes a cap :: int
  assumes "0 < cap" "a mod cap = 0"
  shows "(a - 1) div cap = a div cap - 1"
proof -
  have "a = cap * (a div cap)" using assms(2) by (simp add: mod_eq_0_iff_dvd)
  then have "a - 1 = cap * (a div cap - 1) + (cap - 1)" by (simp add: algebra_simps)
  then show ?thesis
    using int_div_pos_eq[of "a - 1" cap "a div cap - 1" "cap - 1"] assms(1) by simp
qed

lemma div_pred_other:
  fixes a cap :: int
  assumes "0 < cap" "a mod cap \<noteq> 0"
  shows "(a - 1) div cap = a div cap"
proof -
  have "0 \<le> a mod cap" using assms(1) by simp
  with assms(2) have m1: "0 \<le> a mod cap - 1" by linarith
  have m2: "a mod cap - 1 < cap" using pos_mod_bound[OF assms(1), of a] by linarith
  have "a - 1 = cap * (a div cap) + (a mod cap - 1)" by simp
  then show ?thesis
    using int_div_pos_eq[of "a - 1" cap "a div cap" "a mod cap - 1"] m1 m2 by simp
qed

lemma page_step:
  fixes k :: nat and cap :: int
  assumes "0 < cap"
  shows "nat (int k div cap) =
     (if 0 < k \<and> int k mod cap = 0 then Suc (nat (int (k - 1) div cap)) else nat (int (k - 1) div cap))"
proof (cases "k = 0")
  case True then show ?thesis by simp
next
  case False
  then have k: "int (k - Suc 0) = int k - 1" by simp
  show ?thesis
  proof (cases "int k mod cap = 0")
    case True
    have "0 \<le> (int k - 1) div cap"
      using assms False by (simp add: pos_imp_zdiv_nonneg_iff)
    then have "0 \<le> int k div cap - 1"
      by (simp add: div_pred_multiple[OF assms True])
    then show ?thesis using False True by (simp add: k div_pred_multiple[OF assms True] nat_diff_distrib Suc_nat_eq_nat_zadd1)
  next
    case nz: False
    then show ?thesis by (simp add: k div_pred_other[OF assms nz])
  qed
qed

lemma showPage_simps: "page_no (showPage c) = Suc (page_no c)" "drawn (showPage c) = drawn c"
  by (simp_all add: showPage_def)

lemma draw_label_page_no: "page_no (draw_label e g cw ch c row col p n) = page_no c"
  by (simp add: draw_label_def drawString_def setFont_def drawImage_def)

lemma draw_label_drawn:
  "drawn (draw_label e g cw ch c row col p n) =
     drawn c @ map (Pair (page_no c)) (label_ops e g cw ch row col p n)"
  by (simp add: draw_label_def label_ops_def drawString_def setFont_def drawImage_def)

lemma break_row: "slot g idx = 0 \<Longrightarrow> row_of g idx = 0"
  by (simp add: row_of_def)

lemma break_col: "slot g idx = 0 \<Longrightarrow> col_of g idx = 0"
  by (simp add: col_of_def)

lemma place_no_image: "imgs n = None \<Longrightarrow> place e imgs g cw ch c (idx, n) = c"
  by (simp add: place_def)

lemma place_page_no:
  "imgs n = Some p \<Longrightarrow>
   page_no (place e imgs g cw ch c (idx, n)) =
     (if 0 < idx \<and> slot g idx = 0 then Suc (page_no c) else page_no c)"
  by (simp add: place_def Let_def draw_label_page_no showPage_simps)

lemma place_drawn:
  "imgs n = Some p \<Longrightarrow>
   drawn (place e imgs g cw ch c (idx, n)) =
     drawn c @ map (Pair (if 0 < idx \<and> slot g idx = 0 then Suc (page_no c) else page_no c))
                 (label_ops e g cw ch (row_of g idx) (col_of g idx) p n)"
  by (simp add: place_def Let_def draw_label_drawn showPage_simps break_row break_col)

lemma enumerate_snoc:
  "List.enumerate k (xs @ [x]) = List.enumerate k xs @ [(k + length xs, x)]"
  by (simp add: enumerate_append_eq)

lemma layout_loop_Nil: "layout_loop e imgs g cw ch c [] = c"
  by (simp add: layout_loop_def)

lemma layout_loop_snoc:
  "layout_loop e imgs g cw ch c (xs @ [x]) =
     place e imgs g cw ch (layout_loop e imgs g cw ch c xs) (length xs, x)"
  by (simp add: layout_loop_def enumerate_snoc)

text \<open>The calls of one entry of the enumeration, without and with the page.\<close>

lemma layout_loop_ops:
  "map snd (drawn (layout_loop e imgs g cw ch c numbers)) =
     map snd (drawn c) @
     concat (map (\<lambda>(i, n). case imgs n of None \<Rightarrow> []
                    | Some p \<Rightarrow> label_ops e g cw ch (row_of g i) (col_of g i) p n)
               (List.enumerate 0 numbers))"
proof (induction numbers rule: rev_induct)
  case Nil
  show ?case by (simp add: layout_loop_Nil)
next
  case (snoc x xs)
  show ?case
  proof (cases "imgs x")
    case None
    then show ?thesis by (simp add: layout_loop_snoc place_no_image snoc.IH enumerate_snoc)
  next
    case (Some p)
    then show ?thesis
      by (simp add: layout_loop_snoc place_drawn snoc.IH enumerate_snoc comp_def)
  qed
qed

lemma starts_ok_snoc:
  "starts_ok h g (xs @ [x]) =
     (starts_ok h g xs \<and> (0 < length xs \<and> slot g (length xs) = 0 \<longrightarrow> h x))"
  by (simp add: starts_ok_def enumerate_snoc)

lemma layout_loop_pages:
  assumes cap: "0 < capacity g"
    and ok: "starts_ok (\<lambda>n. imgs n \<noteq> None) g numbers"
  shows "page_no (layout_loop e imgs g cw ch new_canvas numbers) =
           nat (int (length numbers - 1) div capacity g) \<and>
         drawn (layout_loop e imgs g cw ch new_canvas numbers) =
           concat (map (\<lambda>(i, n). case imgs n of None \<Rightarrow> []
                          | Some p \<Rightarrow> map (Pair (nat (int i div capacity g)))
                                       (label_ops e g cw ch (row_of g i) (col_of g i) p n))
                     (List.enumerate 0 numbers))"
  using ok
proof (induction numbers rule: rev_induct)
  case Nil
  show ?case by (simp add: layout_loop_Nil new_canvas_def)
next
  case (snoc x xs)
  from snoc.prems have okxs: "starts_ok (\<lambda>n. imgs n \<noteq> None) g xs"
    and last: "0 < length xs \<and> slot g (length xs) = 0 \<longrightarrow> imgs x \<noteq> None"
    by (simp_all add: starts_ok_snoc)
  note IH = snoc.IH[OF okxs]
  let ?k = "length xs"
  have step: "nat (int ?k div capacity g) =
     (if 0 < ?k \<and> slot g ?k = 0 then Suc (nat (int (?k - 1) div capacity g))
      else nat (int (?k - 1) div capacity g))"
    using page_step[OF cap, of ?k] by (simp add: slot_def)
  show ?case
  proof (cases "imgs x")
    case None
    with last have "\<not> (0 < ?k \<and> slot g ?k = 0)" by simp
    with step have "nat (int ?k div capacity g) = nat (int (?k - 1) div capacity g)" by simp
    with None IH show ?thesis
      by (simp add: layout_loop_snoc place_no_image enumerate_snoc)
  next
    case (Some p)
    with IH step show ?thesis
      by (simp add: layout_loop_snoc place_drawn place_page_no enumerate_snoc layout_loop_Nil new_canvas_def)
  qed
qed

lemma generate_images_fst:
  "fst (generate_images e ns (m, fs)) =
     (\<lambda>n. if n \<in> set ns \<and> image_ok e n then Some (barcode_path_of (temp_dir e) n) else m n)"
  by (induction ns arbitrary: m fs) (auto simp: fun_eq_iff)

lemma generate_images_snd:
  "d \<noteq> temp_dir e \<Longrightarrow> snd (generate_images e ns (m, fs)) d = fs d"
  by (induction ns arbitrary: m fs) (auto simp: save_file_def)

subsection \<open>The function as a whole\<close>

lemma generate_pdf_filesystem:
  "snd (generate_pdf_from_numbers e fs numbers c r) = fs(temp_dir e := None)"
proof
  fix d
  show "snd (generate_pdf_from_numbers e fs numbers c r) d = (fs(temp_dir e := None)) d"
  proof (cases "d = temp_dir e")
    case True
    then show ?thesis
      by (simp add: generate_pdf_from_numbers_def Let_def rmtree_def split: prod.splits)
  next
    case False
    obtain m fs2 where g: "generate_images e numbers (Map.empty, mkdtemp fs (temp_dir e)) = (m, fs2)"
      by (cases "generate_images e numbers (Map.empty, mkdtemp fs (temp_dir e))")
    have "fs2 d = mkdtemp fs (temp_dir e) d"
      using generate_images_snd[OF False, of numbers Map.empty "mkdtemp fs (temp_dir e)"] g by simp
    then show ?thesis using False g
      by (simp add: generate_pdf_from_numbers_def Let_def rmtree_def mkdtemp_def)
  qed
qed

lemma generate_pdf_zero:
  "c = 0 \<or> r = 0 \<Longrightarrow> fst (generate_pdf_from_numbers e fs numbers c r) = Inl ZeroDivisionError"
  by (auto simp: generate_pdf_from_numbers_def Let_def cell_width_def cell_height_def
      page_geometry_def split: prod.splits)

lemma generate_pdf_canvas:
  assumes "c \<noteq> 0" "r \<noteq> 0"
  shows "fst (generate_pdf_from_numbers e fs numbers c r) =
     Inr (layout_loop e
            (\<lambda>n. if n \<in> set numbers \<and> image_ok e n then Some (barcode_path_of (temp_dir e) n) else None)
            (page_geometry (mm e) c r)
            (available_width (page_geometry (mm e) c r) / of_int c)
            (available_height (page_geometry (mm e) c r) / of_int r)
            new_canvas numbers)"
proof -
  obtain m fs2 where g: "generate_images e numbers (Map.empty, mkdtemp fs (temp_dir e)) = (m, fs2)"
    by (cases "generate_images e numbers (Map.empty, mkdtemp fs (temp_dir e))")
  have "m = (\<lambda>n. if n \<in> set numbers \<and> image_ok e n then Some (barcode_path_of (temp_dir e) n) else None)"
    using generate_images_fst[of e numbers Map.empty "mkdtemp fs (temp_dir e)"] g by simp
  then show ?thesis using assms g
    by (simp add: generate_pdf_from_numbers_def Let_def cell_width_def cell_height_def page_geometry_def)
qed

lemma enumerate_ops_filter:
  "concat (map (\<lambda>(i, n). case (if n \<in> set numbers \<and> ok n then Some (pth n) else None) of
                    None \<Rightarrow> [] | Some p \<Rightarrow> f i p n) (List.enumerate k xs)) =
   concat (map (\<lambda>(i, n). f i (pth n) n) (filter (\<lambda>(i, n). ok n) (List.enumerate k xs)))"
  if "set xs \<subseteq> set numbers"
  using that by (induction xs arbitrary: k) auto

subsection \<open>What the function draws\<close>

lemma generate_pdf_returns:
  assumes "c \<noteq> 0" "r \<noteq> 0"
  shows "\<exists>cv. generate_pdf_from_numbers e fs numbers c r = (Inr cv, fs(temp_dir e := None))"
  using generate_pdf_canvas[OF assms, of e fs numbers] generate_pdf_filesystem[of e fs numbers c r]
  by (simp add: prod_eq_iff)

lemma generate_pdf_ops:
  assumes nz: "c \<noteq> 0" "r \<noteq> 0"
    and res: "fst (generate_pdf_from_numbers e fs numbers c r) = Inr cv"
  shows "map snd (drawn cv) =
       concat (map (\<lambda>(i, n). slot_ops e c r ((int i mod (c * r)) div c) ((int i mod (c * r)) mod c) n)
                 (filter (\<lambda>(i, n). image_ok e n) (List.enumerate 0 numbers)))"
proof -
  let ?g = "page_geometry (mm e) c r"
  let ?imgs = "\<lambda>n. if n \<in> set numbers \<and> image_ok e n then Some (barcode_path_of (temp_dir e) n) else None"
  let ?cw = "available_width ?g / of_int c"
  let ?ch = "available_height ?g / of_int r"
  have g: "capacity ?g = c * r" "cols ?g = c" by (simp_all add: capacity_def page_geometry_def)
  have cv: "cv = layout_loop e ?imgs ?g ?cw ?ch new_canvas numbers"
    using generate_pdf_canvas[OF nz, of e fs numbers] res by simp
  have "map snd (drawn cv) =
      concat (map (\<lambda>(i, n). case ?imgs n of None \<Rightarrow> []
                     | Some p \<Rightarrow> label_ops e ?g ?cw ?ch (row_of ?g i) (col_of ?g i) p n)
                (List.enumerate 0 numbers))"
    unfolding cv using layout_loop_ops[of e ?imgs ?g ?cw ?ch new_canvas numbers]
    by (simp only: new_canvas_def canvas.simps list.map append_Nil)
  also have "\<dots> =
      concat (map (\<lambda>(i, n). label_ops e ?g ?cw ?ch (row_of ?g i) (col_of ?g i)
                               (barcode_path_of (temp_dir e) n) n)
                (filter (\<lambda>(i, n). image_ok e n) (List.enumerate 0 numbers)))"
    by (rule enumerate_ops_filter) simp
  also have "\<dots> =
      concat (map (\<lambda>(i, n). slot_ops e c r ((int i mod (c * r)) div c) ((int i mod (c * r)) mod c) n)
                (filter (\<lambda>(i, n). image_ok e n) (List.enumerate 0 numbers)))"
    by (simp add: slot_ops_def Let_def row_of_def col_of_def slot_def g)
  finally show ?thesis .
qed

lemma generate_pdf_pages:
  assumes pos: "1 \<le> c" "1 \<le> r"
    and ok: "starts_ok (image_ok e) (page_geometry (mm e) c r) numbers"
    and res: "fst (generate_pdf_from_numbers e fs numbers c r) = Inr cv"
  shows "drawn cv =
       concat (map (\<lambda>(i, n). map (Pair (nat (int i div (c * r))))
                      (slot_ops e c r ((int i mod (c * r)) div c) ((int i mod (c * r)) mod c) n))
                 (filter (\<lambda>(i, n). image_ok e n) (List.enumerate 0 numbers)))"
proof -
  let ?g = "page_geometry (mm e) c r"
  let ?imgs = "\<lambda>n. if n \<in> set numbers \<and> image_ok e n then Some (barcode_path_of (temp_dir e) n) else None"
  let ?cw = "available_width ?g / of_int c"
  let ?ch = "available_height ?g / of_int r"
  have nz: "c \<noteq> 0" "r \<noteq> 0" using pos by auto
  have cap: "0 < capacity ?g" using pos by (simp add: capacity_def page_geometry_def)
  have g: "capacity ?g = c * r" "cols ?g = c" by (simp_all add: capacity_def page_geometry_def)
  have cv: "cv = layout_loop e ?imgs ?g ?cw ?ch new_canvas numbers"
    using generate_pdf_canvas[OF nz, of e fs numbers] res by simp
  have "starts_ok (\<lambda>n. ?imgs n \<noteq> None) ?g numbers"
    using ok by (auto simp: starts_ok_def list_all_iff enumerate_eq_zip dest: set_zip_rightD)
  from layout_loop_pages[OF cap this, of e ?cw ?ch]
  have "drawn cv =
      concat (map (\<lambda>(i, n). case ?imgs n of None \<Rightarrow> []
                     | Some p \<Rightarrow> map (Pair (nat (int i div capacity ?g)))
                                  (label_ops e ?g ?cw ?ch (row_of ?g i) (col_of ?g i) p n))
                (List.enumerate 0 numbers))"
    unfolding cv by (rule conjunct2)
  also have "\<dots> =
      concat (map (\<lambda>(i, n). map (Pair (nat (int i div capacity ?g)))
                               (label_ops e ?g ?cw ?ch (row_of ?g i) (col_of ?g i)
                                  (barcode_path_of (temp_dir e) n) n))
                (filter (\<lambda>(i, n). image_ok e n) (List.enumerate 0 numbers)))"
    by (rule enumerate_ops_filter) simp
  also have "\<dots> =
      concat (map (\<lambda>(i, n). map (Pair (nat (int i div (c * r))))
                    (slot_ops e c r ((int i mod (c * r)) div c) ((int i mod (c * r)) mod c) n))
               (filter (\<lambda>(i, n). image_ok e n) (List.enumerate 0 numbers)))"
    by (simp add: slot_ops_def Let_def row_of_def col_of_def slot_def g)
  finally show ?thesis .
qed

subsection \<open>The example environment\<close>

lemma demo_env_simps:
  "mm (demo_env ok) = 360 / 127" "temp_dir (demo_env ok) = ''/tmp/barcode_pdf_a''"
  "image_ok (demo_env ok) = ok" "draw_ok (demo_env ok) = all_ok"
  by (simp_all add: demo_env_def)

text \<open>The definitions that evaluate the function on a concrete input.\<close>

lemmas eval_loop =
  layout_loop_def place_def draw_label_def Let_def
  slot_def row_of_def col_of_def capacity_def new_canvas_def showPage_def drawImage_def setFont_def
  drawString_def page_geometry_def A4_def available_width_def available_height_def
  demo_env_simps all_ok_def ok_except_def none_ok_def barcode_path_of_def

subsection \<open>Counting pages\<close>

lemma image_div_upt:
  fixes k :: nat
  assumes "0 < k"
  shows "(\<lambda>i. i div k) ` {0..<n} = {0..<(n + k - 1) div k}"
proof (rule set_eqI, rule iffI)
  fix p assume "p \<in> (\<lambda>i. i div k) ` {0..<n}"
  then obtain i where i: "i < n" "p = i div k" by auto
  have "i + k \<le> n + k - 1" using i(1) by simp
  then have "(i + k) div k \<le> (n + k - 1) div k" by (rule div_le_mono)
  then show "p \<in> {0..<(n + k - 1) div k}" using i(2) assms by simp
next
  fix p assume "p \<in> {0..<(n + k - 1) div k}"
  then have "Suc p \<le> (n + k - 1) div k" by simp
  then have "Suc p * k \<le> n + k - 1" using assms by (simp only: less_eq_div_iff_mult_less_eq)
  then have "p * k < n" using assms by simp
  moreover have "(p * k) div k = p" using assms by simp
  ultimately show "p \<in> (\<lambda>i. i div k) ` {0..<n}" by force
qed

lemma ceiling_nat_div:
  fixes n k :: nat
  assumes "0 < k"
  shows "nat \<lceil>real n / real k\<rceil> = (n + k - 1) div k"
proof -
  let ?q = "(n + k - 1) div k"
  have up: "n \<le> ?q * k"
  proof -
    have "n + k - 1 < (?q + 1) * k" using assms
      by (metis add.commute dividend_less_times_div mult.commute mult_Suc Suc_eq_plus1)
    then show ?thesis using assms by simp
  qed
  have lo: "?q * k < n + k"
  proof -
    have "?q * k \<le> n + k - 1" by simp
    then show ?thesis using assms by linarith
  qed
  have "\<lceil>real n / real k\<rceil> = int ?q"
  proof (rule ceiling_unique)
    have "real (?q * k) < real (n + k)" using lo by (simp only: of_nat_less_iff)
    then have "(real ?q - 1) * real k < real n" by (simp add: algebra_simps)
    then show "of_int (int ?q) - 1 < real n / real k" using assms by (simp add: pos_less_divide_eq)
    have "real n \<le> real (?q * k)" using up by (simp only: of_nat_le_iff)
    then show "real n / real k \<le> of_int (int ?q)" using assms by (simp add: pos_divide_le_eq)
  qed
  then show ?thesis by simp
qed

lemma fst_Pair_image: "ys \<noteq> [] \<Longrightarrow> fst ` set (map (Pair a) ys) = {a}"
  by (cases ys) auto

lemma pages_of_pairs:
  "(\<And>i n. (i, n) \<in> set xs \<Longrightarrow> f i n \<noteq> []) \<Longrightarrow>
   fst ` set (concat (map (\<lambda>(i, n). map (Pair (pg i)) (f i n)) xs)) = pg ` fst ` set xs"
proof (induction xs)
  case Nil
  show ?case by simp
next
  case (Cons x xs)
  obtain i n where x: "x = (i, n)" by (cases x)
  have ne: "f i n \<noteq> []" using Cons.prems[of i n] x by simp
  have IH: "fst ` set (concat (map (\<lambda>(i, n). map (Pair (pg i)) (f i n)) xs)) = pg ` fst ` set xs"
    using Cons.IH Cons.prems by simp
  show ?case
    using IH fst_Pair_image[OF ne, of "pg i"] by (simp add: x image_Un)
qed

lemma pages_of_enumerate:
  assumes "\<And>i n. (i, n) \<in> set (List.enumerate 0 numbers) \<Longrightarrow> f i n \<noteq> []"
  shows "fst ` set (concat (map (\<lambda>(i, n). map (Pair (pg i)) (f i n)) (List.enumerate 0 numbers)))
           = pg ` {0..<length numbers}"
proof -
  have "fst ` set (List.enumerate 0 numbers) = {0..<length numbers}"
    by (metis add_0 list.set_map map_fst_enumerate set_upt)
  then show ?thesis using pages_of_pairs[of "List.enumerate 0 numbers" f pg] assms by simp
qed

subsection \<open>Two runs side by side\<close>

lemma label_ops_without_path:
  "draw_ok e1 = draw_ok e2 \<Longrightarrow>
   map without_path (label_ops e1 g cw ch row col p1 n) =
   map without_path (label_ops e2 g cw ch row col p2 n)"
  by (simp add: label_ops_def)

lemma placements_Pair:
  "map (\<lambda>(pg, op). (pg, without_path op)) (map (Pair q) ops) = map (Pair q) (map without_path ops)"
  by simp

lemma place_placements:
  assumes same: "(im1 n = None) = (im2 n = None)"
    and dr: "draw_ok e1 = draw_ok e2"
    and pg: "page_no c1 = page_no c2"
    and pl: "placements c1 = placements c2"
  shows "page_no (place e1 im1 g cw ch c1 (idx, n)) = page_no (place e2 im2 g cw ch c2 (idx, n)) \<and>
         placements (place e1 im1 g cw ch c1 (idx, n)) = placements (place e2 im2 g cw ch c2 (idx, n))"
proof (cases "im1 n")
  case None
  with same have "im2 n = None" by simp
  with None pg pl show ?thesis by (simp add: place_no_image)
next
  case (Some p1)
  with same obtain p2 where p2: "im2 n = Some p2" by auto
  note eq = label_ops_without_path[OF dr, of g cw ch "row_of g idx" "col_of g idx" p1 n p2]
  have "placements (place e1 im1 g cw ch c1 (idx, n)) =
        placements c1 @ map (Pair (if 0 < idx \<and> slot g idx = 0 then Suc (page_no c1) else page_no c1))
          (map without_path (label_ops e1 g cw ch (row_of g idx) (col_of g idx) p1 n))"
    unfolding placements_def place_drawn[where imgs=im1, OF Some] map_append placements_Pair ..
  moreover have "placements (place e2 im2 g cw ch c2 (idx, n)) =
        placements c2 @ map (Pair (if 0 < idx \<and> slot g idx = 0 then Suc (page_no c2) else page_no c2))
          (map without_path (label_ops e2 g cw ch (row_of g idx) (col_of g idx) p2 n))"
    unfolding placements_def place_drawn[where imgs=im2, OF p2] map_append placements_Pair ..
  ultimately show ?thesis
    using pg pl eq by (simp add: place_page_no[where imgs=im1, OF Some] place_page_no[where imgs=im2, OF p2])
qed

lemma layout_loop_placements:
  assumes same: "\<forall>n. (im1 n = None) = (im2 n = None)"
    and dr: "draw_ok e1 = draw_ok e2"
  shows "page_no (layout_loop e1 im1 g cw ch new_canvas numbers) =
           page_no (layout_loop e2 im2 g cw ch new_canvas numbers) \<and>
         placements (layout_loop e1 im1 g cw ch new_canvas numbers) =
           placements (layout_loop e2 im2 g cw ch new_canvas numbers)"
proof (induction numbers rule: rev_induct)
  case Nil
  show ?case by (simp add: layout_loop_Nil)
next
  case (snoc x xs)
  from same have sx: "(im1 x = None) = (im2 x = None)" by simp
  from snoc.IH show ?case
    unfolding layout_loop_snoc
    using place_placements[where ?im1.0=im1 and ?im2.0=im2 and n=x, OF sx dr] by blast
qed

subsection \<open>Reading cells and counting up\<close>

lemma api_read_cell_eq:
  "api_read_cell parse ws numbers row =
     numbers @ (if kept parse (column_a ws row) then [label_of parse (column_a ws row)] else [])"
  by (cases "py_int parse (column_a ws row)")
     (simp_all add: api_read_cell_def kept_def label_of_def Let_def)

lemma api_read_rows:
  "foldl (api_read_cell parse ws) numbers rs =
     numbers @ map (label_of parse) (filter (kept parse) (map (column_a ws) rs))"
  by (induction rs arbitrary: numbers) (simp_all add: api_read_cell_eq)

lemma py_int_errors:
  "py_int parse v = Inl err \<Longrightarrow> v \<noteq> PyFloat Infinite \<Longrightarrow> err = ValueError \<or> err = TypeError"
  by (cases "(parse, v)" rule: py_int.cases) (auto split: option.splits)

lemma script_read_cell_eq:
  assumes "column_a ws row \<noteq> PyFloat Infinite"
  shows "script_read_cell parse ws (Inr numbers) row = Inr (api_read_cell parse ws numbers row)"
proof (cases "py_int parse (column_a ws row)")
  case (Inl err)
  from py_int_errors[OF Inl assms] Inl show ?thesis
    by (auto simp: script_read_cell_def api_read_cell_def Let_def)
next
  case (Inr i)
  then show ?thesis by (simp add: script_read_cell_def api_read_cell_def Let_def)
qed

lemma script_read_cell_infinite:
  "column_a ws row = PyFloat Infinite \<Longrightarrow>
   script_read_cell parse ws (Inr numbers) row = Inl OverflowError"
  by (simp add: script_read_cell_def)

lemma script_read_error:
  "foldl (script_read_cell parse ws) (Inl err) rs = Inl err"
  by (induction rs) (simp_all add: script_read_cell_def)

lemma script_read_rows:
  "PyFloat Infinite \<notin> set (map (column_a ws) rs) \<Longrightarrow>
   foldl (script_read_cell parse ws) (Inr numbers) rs =
     Inr (foldl (api_read_cell parse ws) numbers rs)"
proof (induction rs arbitrary: numbers)
  case Nil
  show ?case by simp
next
  case (Cons a rs)
  from Cons.prems have a: "column_a ws a \<noteq> PyFloat Infinite"
    and rs: "PyFloat Infinite \<notin> set (map (column_a ws) rs)" by auto
  show ?case by (simp add: script_read_cell_eq[OF a] Cons.IH[OF rs])
qed

lemma script_read_rows_infinite:
  "PyFloat Infinite \<in> set (map (column_a ws) rs) \<Longrightarrow>
   foldl (script_read_cell parse ws) (Inr numbers) rs = Inl OverflowError"
proof (induction rs arbitrary: numbers)
  case Nil
  then show ?case by simp
next
  case (Cons a rs)
  show ?case
  proof (cases "column_a ws a = PyFloat Infinite")
    case True
    then show ?thesis by (simp add: script_read_cell_infinite script_read_error)
  next
    case False
    with Cons.prems have "PyFloat Infinite \<in> set (map (column_a ws) rs)" by auto
    from Cons.IH[OF this] False show ?thesis by (simp add: script_read_cell_eq)
  qed
qed

text \<open>
  What the two readings return. The reading of \<^verbatim>\<open>barcode_app.py\<close> keeps, in row order,
  the decimal strings of exactly the cells that are not empty and that \<^verbatim>\<open>int\<close>
  converts. The reading of \<^verbatim>\<open>eg.py\<close> returns the same list when no cell holds an
  infinite float, and otherwise leaves with \<^verbatim>\<open>OverflowError\<close>.
\<close>

lemma api_sheet_labels:
  "api_read_numbers parse ws = map (label_of parse) (filter (kept parse) (cells ws))"
  by (simp add: api_read_numbers_def cells_def api_read_rows)

lemma script_sheet_labels:
  "PyFloat Infinite \<notin> set (cells ws) \<Longrightarrow>
   script_read_numbers parse ws = Inr (map (label_of parse) (filter (kept parse) (cells ws)))"
  using script_read_rows[of ws "[2..<max_row ws + 1]" parse "[]"]
  by (simp add: script_read_numbers_def cells_def api_read_rows)

lemma script_sheet_overflow:
  "PyFloat Infinite \<in> set (cells ws) \<Longrightarrow> script_read_numbers parse ws = Inl OverflowError"
  using script_read_rows_infinite[of ws "[2..<max_row ws + 1]" parse "[]"]
  by (simp add: script_read_numbers_def cells_def)

lemma py_str_examples:
  "py_str 253310001 = ''253310001''" "py_str 253310007 = ''253310007''" "py_str 42 = ''42''"
  by (simp_all add: py_str_def nat_digits.simps digit_char_def)

lemma consecutive_numbers:
  "map (\<lambda>i. s + int i) [0..<m] = [s..s + int m - 1]"
proof (induction m)
  case 0
  show ?case by simp
next
  case (Suc m)
  have "[s..s + int (Suc m) - 1] = [s..s + int m - 1] @ [s + int m]"
    using upto_rec2[of s "s + int m"] by simp
  with Suc show ?case by simp
qed

subsection \<open>The script runs the same loop\<close>

text \<open>
  The canvas of \<^verbatim>\<open>generate_pdf_from_excel\<close> is the canvas of
  \<^verbatim>\<open>generate_pdf_from_numbers\<close> on the labels read from the sheet, and its page counter
  is one more than the number of the last page; what is proved below of the one layout
  holds of the other. A sheet without numbers never reaches the layout there.
\<close>

lemma script_place_canvas:
  "script_place e imgs g cw ch (c, bc, pn) (idx, n) =
     (place e imgs g cw ch c (idx, n),
      (if imgs n \<noteq> None \<and> draw_ok e n then bc + 1 else bc),
      (if imgs n \<noteq> None \<and> 0 < idx \<and> slot g idx = 0 then pn + 1 else pn))"
  by (simp add: script_place_def place_def Let_def split: option.splits)

lemma script_place_step:
  assumes "script_place e imgs g cw ch (c, bc, pn) x = (c', bc', pn')"
  shows "c' = place e imgs g cw ch c x" and "pn' + page_no c = pn + page_no c'"
proof -
  obtain idx n where x: "x = (idx, n)" by (cases x)
  show "c' = place e imgs g cw ch c x"
    using assms by (simp add: x script_place_canvas)
  show "pn' + page_no c = pn + page_no c'"
  proof (cases "imgs n")
    case None
    then show ?thesis using assms by (simp add: x script_place_canvas place_no_image)
  next
    case (Some p)
    then show ?thesis
      using assms place_page_no[where imgs=imgs, OF Some, of e g cw ch c idx]
      by (auto simp: x script_place_canvas)
  qed
qed

lemma script_loop_canvas:
  "fst (foldl (script_place e imgs g cw ch) (c, bc, pn) xs) = foldl (place e imgs g cw ch) c xs \<and>
   snd (snd (foldl (script_place e imgs g cw ch) (c, bc, pn) xs)) + page_no c =
     pn + page_no (foldl (place e imgs g cw ch) c xs)"
proof (induction xs arbitrary: c bc pn)
  case Nil
  show ?case by simp
next
  case (Cons x xs)
  obtain c' bc' pn' where st: "script_place e imgs g cw ch (c, bc, pn) x = (c', bc', pn')"
    by (cases "script_place e imgs g cw ch (c, bc, pn) x")
  note step = script_place_step[OF st]
  from Cons.IH[of c' bc' pn'] step show ?case
    by (simp add: st)
qed

lemma script_layout_loop_canvas:
  "fst (script_layout_loop e imgs g cw ch numbers) = layout_loop e imgs g cw ch new_canvas numbers"
  "snd (snd (script_layout_loop e imgs g cw ch numbers)) =
     1 + page_no (layout_loop e imgs g cw ch new_canvas numbers)"
  using script_loop_canvas[of e imgs g cw ch new_canvas 0 1 "List.enumerate 0 numbers"]
  by (simp_all add: script_layout_loop_def layout_loop_def new_canvas_def)

lemma generate_pdf_from_excel_layout:
  assumes "script_read_numbers parse ws = Inr numbers" and "numbers \<noteq> []"
  shows "generate_pdf_from_excel parse e fs (Some ws) c r =
     (map_sum id Some (fst (generate_pdf_from_numbers e fs numbers c r)),
      snd (generate_pdf_from_numbers e fs numbers c r))"
  using assms
  by (simp add: generate_pdf_from_excel_def generate_pdf_from_numbers_def Let_def
      script_layout_loop_canvas split: prod.splits sum.splits)

lemma generate_pdf_from_excel_empty:
  "script_read_numbers parse ws = Inr [] \<Longrightarrow>
   generate_pdf_from_excel parse e fs (Some ws) c r = (Inr None, fs)"
  by (simp add: generate_pdf_from_excel_def)

text \<open>
  The layout of the script goes by the index in the list of kept cells: a cell that the
  reading skips takes no index there, and so no slot.
\<close>

lemma generate_pdf_from_excel_slots:
  assumes "PyFloat Infinite \<notin> set (cells ws)" and "filter (kept parse) (cells ws) \<noteq> []"
  shows "generate_pdf_from_excel parse e fs (Some ws) c r =
     (map_sum id Some
        (fst (generate_pdf_from_numbers e fs
                (map (label_of parse) (filter (kept parse) (cells ws))) c r)),
      snd (generate_pdf_from_numbers e fs
             (map (label_of parse) (filter (kept parse) (cells ws))) c r))"
  by (rule generate_pdf_from_excel_layout)
     (use assms in \<open>simp_all add: script_sheet_labels\<close>)

section \<open>Cell dimensions\<close>

text \<open>
  Claim C6. For a geometry with at least one column and one row, the cell width is the
  page width less both horizontal margins, divided by the number of columns, and the cell
  height is the page height less both vertical margins, divided by the number of rows.
  On the A4 page with margins of 12 and 15 mm, four columns and eight rows give cells of
  46.5 mm by 33.375 mm, whatever the length of the unit \<open>u\<close> in points.
\<close>

theorem cell_dimensions:
  "1 \<le> cols g \<Longrightarrow> 1 \<le> rows g \<Longrightarrow>
     cell_width g = Inr ((page_width g - 2 * margin_x g) / of_int (cols g)) \<and>
     cell_height g = Inr ((page_height g - 2 * margin_y g) / of_int (rows g)) \<and>
     cell_width (page_geometry u 4 8) = Inr (46.5 * u) \<and>
     cell_height (page_geometry u 4 8) = Inr (33.375 * u)"
  by (simp add: cell_width_def cell_height_def available_width_def available_height_def
      page_geometry_def A4_def)

theorem cell_dimensions_witness:
  "1 \<le> cols (page_geometry (360 / 127) 4 8) \<and> 1 \<le> rows (page_geometry (360 / 127) 4 8) \<and>
   cell_width (page_geometry (360 / 127) 4 8) = Inr ((210 * (360 / 127) - 2 * (12 * (360 / 127))) / 4) \<and>
   cell_height (page_geometry (360 / 127) 4 8) = Inr ((297 * (360 / 127) - 2 * (15 * (360 / 127))) / 8)"
  using cell_dimensions[of "page_geometry (360 / 127) 4 8" 1]
  by (simp add: page_geometry_def A4_def)

section \<open>Pages, slots, rows and columns\<close>

text \<open>
  Claim C1, as amended. With at least one column and one row, the function returns a
  canvas and leaves the file system as it was outside the temporary directory. The
  labels whose image was generated are placed in input order, each in the cell its own
  index \<open>i\<close> selects: slot \<open>i mod (c * r)\<close>, row \<open>slot div c\<close>, column \<open>slot mod c\<close>; a label
  whose image was not generated is not placed. When every label at a positive multiple
  of the capacity has an image, the calls for index \<open>i\<close> land on page \<open>i div (c * r)\<close>.
\<close>

theorem layout_positions:
  assumes "1 \<le> c" and "1 \<le> r"
  shows "\<exists>cv. generate_pdf_from_numbers e fs numbers c r = (Inr cv, fs(temp_dir e := None)) \<and>
     map snd (drawn cv) =
       concat (map (\<lambda>(i, n). slot_ops e c r ((int i mod (c * r)) div c) ((int i mod (c * r)) mod c) n)
                 (filter (\<lambda>(i, n). image_ok e n) (List.enumerate 0 numbers))) \<and>
     (starts_ok (image_ok e) (page_geometry (mm e) c r) numbers \<longrightarrow>
      drawn cv =
       concat (map (\<lambda>(i, n). map (Pair (nat (int i div (c * r))))
                      (slot_ops e c r ((int i mod (c * r)) div c) ((int i mod (c * r)) mod c) n))
                 (filter (\<lambda>(i, n). image_ok e n) (List.enumerate 0 numbers))))"
proof -
  have nz: "c \<noteq> 0" "r \<noteq> 0" using assms by auto
  from generate_pdf_returns[OF nz, of e fs numbers]
  obtain cv where cv: "generate_pdf_from_numbers e fs numbers c r = (Inr cv, fs(temp_dir e := None))" ..
  then have res: "fst (generate_pdf_from_numbers e fs numbers c r) = Inr cv" by simp
  show ?thesis
    using cv generate_pdf_ops[OF nz res] generate_pdf_pages[OF assms _ res] by blast
qed

text \<open>
  The example of the spec: four columns, eight rows, 35 labels. The label at index 32
  (the 33rd, drawn by the calls 96 to 98) is in row 0 and column 0 of page 1.
\<close>

theorem layout_positions_witness:
  "1 \<le> (4::int) \<and> 1 \<le> (8::int) \<and>
   starts_ok (image_ok (demo_env all_ok)) (page_geometry (mm (demo_env all_ok)) 4 8) labels35 \<and>
   (\<exists>cv. fst (generate_pdf_from_numbers (demo_env all_ok) no_files labels35 4 8) = Inr cv \<and>
      length (drawn cv) = 105 \<and>
      drawn cv ! 96 = (1, DrawImage ''/tmp/barcode_pdf_a/barcode_253310033.png''
                            (14.325 * (360 / 127)) (250.29375 * (360 / 127))
                            (41.85 * (360 / 127)) (25.03125 * (360 / 127))))"
proof -
  have ok: "starts_ok (image_ok (demo_env all_ok)) (page_geometry (mm (demo_env all_ok)) 4 8) labels35"
    by (simp add: starts_ok_def labels35_def demo_env_simps all_ok_def)
  from layout_positions[of 4 8 "demo_env all_ok" no_files labels35] ok
  obtain cv where cv: "fst (generate_pdf_from_numbers (demo_env all_ok) no_files labels35 4 8) = Inr cv"
    and d: "drawn cv =
       concat (map (\<lambda>(i, n). map (Pair (nat (int i div (4 * 8))))
                      (slot_ops (demo_env all_ok) 4 8 ((int i mod (4 * 8)) div 4) ((int i mod (4 * 8)) mod 4) n))
                 (filter (\<lambda>(i, n). image_ok (demo_env all_ok) n) (List.enumerate 0 labels35)))"
    by auto
  have "length (drawn cv) = 105 \<and>
      drawn cv ! 96 = (1, DrawImage ''/tmp/barcode_pdf_a/barcode_253310033.png''
                            (14.325 * (360 / 127)) (250.29375 * (360 / 127))
                            (41.85 * (360 / 127)) (25.03125 * (360 / 127)))"
    unfolding d
    by (simp add: labels35_def demo_env_simps all_ok_def slot_ops_def label_ops_def Let_def
        page_geometry_def A4_def available_width_def available_height_def image_x_def image_y_def
        barcode_width_def barcode_height_def barcode_path_of_def)
  with cv ok show ?thesis by simp
qed

text \<open>
  The claim as stated fails where an image is missing. With two columns and one row,
  and the third of four labels without an image, that label is drawn nowhere, and the
  fourth label, at index 3, lands on page 0 and not on page 1.
\<close>

theorem layout_positions_counterexample:
  "map_sum id page_labels
     (fst (generate_pdf_from_numbers (demo_env (ok_except ''3'')) no_files
             [''1'', ''2'', ''3'', ''4''] 2 1)) =
   Inr [(0, ''1''), (0, ''2''), (0, ''4'')]"
  by (simp add: generate_pdf_canvas eval_loop page_labels_def)

section \<open>Page breaks\<close>

text \<open>
  Claim C2, at an input where the code departs from it. Two columns and two rows make
  four labels a page; of six labels the fifth, at index 4, has no image. The loop leaves
  that label before it reaches the page break, so no page break happens at all: the
  canvas ends on page 0, and the sixth label is drawn on page 0 in the rectangle of the
  second one (the calls 12 and 3 differ in the image file only).
\<close>

theorem page_break_skipped:
  "\<exists>cv. fst (generate_pdf_from_numbers (demo_env (ok_except ''5'')) no_files
               [''1'', ''2'', ''3'', ''4'', ''5'', ''6''] 2 2) = Inr cv \<and>
     page_no cv = 0 \<and>
     page_labels cv = [(0, ''1''), (0, ''2''), (0, ''3''), (0, ''4''), (0, ''6'')] \<and>
     placements cv ! 12 = placements cv ! 3"
  by (simp add: generate_pdf_canvas eval_loop page_labels_def placements_def)

section \<open>Labels without an image\<close>




section \<open>The number of pages\<close>

text \<open>
  Claim C4, as amended. With at least one column and one row, when the image of every
  label is generated and drawn, the number of distinct pages drawn on is the number of
  labels divided by the capacity, rounded up; and the empty label sequence gives the
  empty canvas, not an error.
\<close>

theorem page_total:
  assumes "1 \<le> c" and "1 \<le> r"
    and "list_all (image_ok e) numbers" and "list_all (draw_ok e) numbers"
  shows "(\<exists>cv. fst (generate_pdf_from_numbers e fs numbers c r) = Inr cv \<and>
     page_count cv = nat \<lceil>real (length numbers) / real_of_int (c * r)\<rceil>) \<and>
   fst (generate_pdf_from_numbers e fs [] c r) = Inr new_canvas"
proof -
  have nz: "c \<noteq> 0" "r \<noteq> 0" using assms by auto
  have empty: "fst (generate_pdf_from_numbers e fs [] c r) = Inr new_canvas"
    using generate_pdf_canvas[OF nz, of e fs "[]"] by (simp add: layout_loop_Nil)
  from generate_pdf_returns[OF nz, of e fs numbers]
  obtain cv where "generate_pdf_from_numbers e fs numbers c r = (Inr cv, fs(temp_dir e := None))" ..
  then have res: "fst (generate_pdf_from_numbers e fs numbers c r) = Inr cv" by simp
  have img: "\<And>i n. (i, n) \<in> set (List.enumerate 0 numbers) \<Longrightarrow> image_ok e n \<and> draw_ok e n"
    using assms(3,4) by (auto simp: list_all_iff enumerate_eq_zip dest: set_zip_rightD)
  have ok: "starts_ok (image_ok e) (page_geometry (mm e) c r) numbers"
    using img by (auto simp: starts_ok_def list_all_iff)
  have all: "filter (\<lambda>(i, n). image_ok e n) (List.enumerate 0 numbers) = List.enumerate 0 numbers"
    using img by (auto simp: filter_id_conv)
  have pos: "0 < c * r" using assms(1,2) by simp
  define k where "k = nat (c * r)"
  have k: "0 < k" "int k = c * r" using pos by (simp_all add: k_def)
  have pg: "(\<lambda>i. nat (int i div (c * r))) = (\<lambda>i. i div k)"
    by (simp add: k(2)[symmetric] zdiv_int[symmetric] del: of_nat_mult)
  have "pages_used cv = (\<lambda>i. nat (int i div (c * r))) ` {0..<length numbers}"
    unfolding pages_used_def generate_pdf_pages[OF assms(1,2) ok res] all
    by (rule pages_of_enumerate) (use img in \<open>auto simp: slot_ops_def label_ops_def Let_def\<close>)
  then have "pages_used cv = (\<lambda>i. i div k) ` {0..<length numbers}"
    by (simp only: pg)
  then have "page_count cv = (length numbers + k - 1) div k"
    by (simp add: page_count_def image_div_upt[OF k(1)])
  also have "\<dots> = nat \<lceil>real (length numbers) / real k\<rceil>"
    by (simp add: ceiling_nat_div[OF k(1)])
  also have "real k = real_of_int (c * r)"
    using k(2) by (metis of_int_of_nat_eq)
  finally show ?thesis
    using res empty by blast
qed

text \<open>The 35 labels of the example fill two pages of 32.\<close>

theorem page_total_witness:
  "1 \<le> (4::int) \<and> 1 \<le> (8::int) \<and>
   list_all (image_ok (demo_env all_ok)) labels35 \<and> list_all (draw_ok (demo_env all_ok)) labels35 \<and>
   (\<exists>cv. fst (generate_pdf_from_numbers (demo_env all_ok) no_files labels35 4 8) = Inr cv \<and>
      page_count cv = 2)"
proof -
  have h: "list_all (image_ok (demo_env all_ok)) labels35" "list_all (draw_ok (demo_env all_ok)) labels35"
    by (simp_all add: demo_env_simps all_ok_def list_all_iff)
  have n: "length labels35 = 35" by (simp add: labels35_def)
  show ?thesis
    using page_total[of 4 8 "demo_env all_ok" labels35 no_files, OF _ _ h] h by (simp add: n)
qed

text \<open>
  The claim as stated counts one page for three labels. When none of them has an image,
  nothing is drawn on any page.
\<close>

theorem page_total_counterexample:
  "map_sum id page_count
     (fst (generate_pdf_from_numbers (demo_env none_ok) no_files [''7'', ''8'', ''9''] 4 8)) = Inr 0 \<and>
   nat \<lceil>real (length [''7'', ''8'', ''9'']) / real_of_int (4 * 8)\<rceil> = 1"
  by (simp add: generate_pdf_canvas eval_loop page_count_def pages_used_def)

section \<open>The image rectangle and the caption\<close>

text \<open>
  Claim C5, as amended. For a label that is drawn, with the cell of the spec at row
  \<open>row\<close> and column \<open>col\<close>: the bottom edge of the cell, from the bottom of the page, is
  \<open>page_height - margin_y - (row + 1) * cell_height\<close>. The image rectangle is 90 percent
  of the cell wide and 75 percent of it high; it is inset by 5 percent of the cell width
  on the left and on the right, hence centred horizontally, by 5 percent of the cell
  height at the bottom and by 20 percent at the top, so it sits on the bottom of the
  padded cell. The caption baseline is 15 percent of the cell height below the bottom
  edge of the image, and the caption starts 15 points left of the middle of the image.
\<close>

theorem image_and_caption_geometry:
  "draw_ok e n \<Longrightarrow>
   label_ops e g cw ch row col p n =
     [DrawImage p (spec_cell_left g cw col + 0.05 * cw) (spec_cell_bottom g ch row + 0.05 * ch)
        (0.9 * cw) (0.75 * ch),
      SetFont ''Helvetica'' 8,
      DrawString (spec_cell_left g cw col + cw / 2 - 15)
        (spec_cell_bottom g ch row + 0.05 * ch - 0.15 * ch) n] \<and>
   spec_cell_bottom g ch row = page_height g - margin_y g - (of_int row + 1) * ch \<and>
   image_x g cw col - spec_cell_left g cw col = 0.05 * cw \<and>
   (spec_cell_left g cw col + cw) - (image_x g cw col + barcode_width cw) = 0.05 * cw \<and>
   image_y g ch row - spec_cell_bottom g ch row = 0.05 * ch \<and>
   spec_cell_top g ch row - (image_y g ch row + barcode_height ch) = 0.20 * ch \<and>
   image_x g cw col + barcode_width cw / 2 = spec_cell_left g cw col + cw / 2 \<and>
   text_y g ch row = image_y g ch row - 0.15 * ch \<and>
   text_x g cw col = image_x g cw col + barcode_width cw / 2 - 15"
  by (simp add: label_ops_def spec_cell_left_def spec_cell_bottom_def spec_cell_top_def
      image_x_def image_y_def barcode_width_def barcode_height_def text_x_def text_y_def
      algebra_simps)

text \<open>The first cell of the A4 page with four columns and eight rows.\<close>

theorem image_and_caption_geometry_witness:
  "draw_ok (demo_env all_ok) ''1'' \<and>
   label_ops (demo_env all_ok) (page_geometry (360 / 127) 4 8) (46.5 * (360 / 127))
       (33.375 * (360 / 127)) 0 0 ''/tmp/barcode_pdf_a/barcode_1.png'' ''1'' =
     [DrawImage ''/tmp/barcode_pdf_a/barcode_1.png''
        (14.325 * (360 / 127)) (250.29375 * (360 / 127)) (41.85 * (360 / 127)) (25.03125 * (360 / 127)),
      SetFont ''Helvetica'' 8,
      DrawString (35.25 * (360 / 127) - 15) (245.2875 * (360 / 127)) ''1'']"
proof -
  have h: "draw_ok (demo_env all_ok) ''1''" by (simp add: demo_env_simps all_ok_def)
  show ?thesis
    using image_and_caption_geometry[OF h, of "page_geometry (360 / 127) 4 8" "46.5 * (360 / 127)"
        "33.375 * (360 / 127)" 0 0 "''/tmp/barcode_pdf_a/barcode_1.png''"] h
    by (simp add: spec_cell_left_def spec_cell_bottom_def page_geometry_def A4_def)
qed

text \<open>
  The claim as stated puts the image at the top of the padded cell, 5 percent of the
  cell height below the top edge of the cell. In the first cell of the A4 page the top
  edge of the image is not there: it is 20 percent of the cell height below the top edge.
\<close>

theorem image_and_caption_geometry_counterexample:
  "image_y (page_geometry (360 / 127) 4 8) (33.375 * (360 / 127)) 0
       + barcode_height (33.375 * (360 / 127))
     \<noteq> spec_cell_top (page_geometry (360 / 127) 4 8) (33.375 * (360 / 127)) 0
         - 0.05 * (33.375 * (360 / 127)) \<and>
   spec_cell_top (page_geometry (360 / 127) 4 8) (33.375 * (360 / 127)) 0
     - (image_y (page_geometry (360 / 127) 4 8) (33.375 * (360 / 127)) 0
        + barcode_height (33.375 * (360 / 127)))
     = 0.20 * (33.375 * (360 / 127))"
  by (simp add: image_y_def barcode_height_def spec_cell_top_def page_geometry_def A4_def)

section \<open>Geometries outside the invariant\<close>

text \<open>
  Claim C7, as amended. The function does not validate the geometry. A column or row
  count of zero makes it fail with \<^verbatim>\<open>ZeroDivisionError\<close>, raised by the division that
  computes the cell size: after the images were generated, before any label is placed,
  with no canvas returned and the temporary directory removed. Any other counts, negative
  ones too, give a canvas. A call leaves a file system that did not contain its temporary
  directory as it was. The margins are constants of the function, 12 and 15 units on a
  page of 210 by 297, and so less than half the page whenever the unit is positive.
\<close>

theorem geometry_not_validated:
  "(c = 0 \<or> r = 0 \<longrightarrow>
      generate_pdf_from_numbers e fs numbers c r = (Inl ZeroDivisionError, fs(temp_dir e := None))) \<and>
   (c \<noteq> 0 \<and> r \<noteq> 0 \<longrightarrow> \<not> isl (fst (generate_pdf_from_numbers e fs numbers c r))) \<and>
   (temp_dir e \<notin> dom fs \<longrightarrow> snd (generate_pdf_from_numbers e fs numbers c r) = fs) \<and>
   (0 < mm e \<longrightarrow>
      margin_x (page_geometry (mm e) c r) < page_width (page_geometry (mm e) c r) / 2 \<and>
      margin_y (page_geometry (mm e) c r) < page_height (page_geometry (mm e) c r) / 2)"
proof -
  have a: "generate_pdf_from_numbers e fs numbers c r = (Inl ZeroDivisionError, fs(temp_dir e := None))"
    if "c = 0 \<or> r = 0"
    using generate_pdf_zero[OF that, of e fs numbers] generate_pdf_filesystem[of e fs numbers c r]
    by (simp add: prod_eq_iff)
  have b: "\<not> isl (fst (generate_pdf_from_numbers e fs numbers c r))" if "c \<noteq> 0 \<and> r \<noteq> 0"
    using generate_pdf_canvas[of c r e fs numbers] that by simp
  have c: "snd (generate_pdf_from_numbers e fs numbers c r) = fs" if "temp_dir e \<notin> dom fs"
    using generate_pdf_filesystem[of e fs numbers c r] that by (auto simp: fun_eq_iff)
  have d: "margin_x (page_geometry (mm e) c r) < page_width (page_geometry (mm e) c r) / 2 \<and>
      margin_y (page_geometry (mm e) c r) < page_height (page_geometry (mm e) c r) / 2"
    if "0 < mm e"
    using that by (simp add: page_geometry_def A4_def)
  show ?thesis using a b c d by blast
qed

text \<open>No columns: the error. Minus four columns and minus eight rows: a canvas.\<close>

theorem geometry_not_validated_witness:
  "((0::int) = 0 \<or> (8::int) = 0) \<and>
   generate_pdf_from_numbers (demo_env all_ok) no_files [''1''] 0 8 = (Inl ZeroDivisionError, no_files) \<and>
   ((-4::int) \<noteq> 0 \<and> (-8::int) \<noteq> 0) \<and>
   \<not> isl (fst (generate_pdf_from_numbers (demo_env all_ok) no_files [''1''] (-4) (-8))) \<and>
   temp_dir (demo_env all_ok) \<notin> dom no_files \<and>
   snd (generate_pdf_from_numbers (demo_env all_ok) no_files [''1''] (-4) (-8)) = no_files \<and>
   0 < mm (demo_env all_ok) \<and>
   margin_x (page_geometry (mm (demo_env all_ok)) 0 8) < page_width (page_geometry (mm (demo_env all_ok)) 0 8) / 2"
  using geometry_not_validated[of 0 8 "demo_env all_ok" no_files "[''1'']"]
    geometry_not_validated[of "-4" "-8" "demo_env all_ok" no_files "[''1'']"]
  by (simp add: demo_env_simps no_files_def)

text \<open>
  The claim as stated has negative counts fail. With minus four columns and minus eight
  rows the label is drawn on page 0.
\<close>

theorem geometry_not_validated_counterexample:
  "map_sum id page_labels
     (fst (generate_pdf_from_numbers (demo_env all_ok) no_files [''1''] (-4) (-8))) = Inr [(0, ''1'')]"
  by (simp add: generate_pdf_canvas eval_loop page_labels_def)

section \<open>Determinism\<close>

text \<open>
  Claim C8. The placements are a function of the labels, the column and row counts and
  the outcomes of the two collaborators: two calls that agree on these return the same
  placements, or the same error, whatever their temporary directories and whatever the
  file system holds; and a call hands back the file system it found, so that nothing is
  carried from one call to the next.
\<close>

theorem layout_deterministic:
  assumes "mm e1 = mm e2" and "image_ok e1 = image_ok e2" and "draw_ok e1 = draw_ok e2"
  shows "map_sum id placements (fst (generate_pdf_from_numbers e1 fs1 numbers c r)) =
         map_sum id placements (fst (generate_pdf_from_numbers e2 fs2 numbers c r)) \<and>
         (temp_dir e1 \<notin> dom fs1 \<longrightarrow> snd (generate_pdf_from_numbers e1 fs1 numbers c r) = fs1)"
proof -
  have fs: "snd (generate_pdf_from_numbers e1 fs1 numbers c r) = fs1" if "temp_dir e1 \<notin> dom fs1"
    using generate_pdf_filesystem[of e1 fs1 numbers c r] that by (auto simp: fun_eq_iff)
  have "map_sum id placements (fst (generate_pdf_from_numbers e1 fs1 numbers c r)) =
         map_sum id placements (fst (generate_pdf_from_numbers e2 fs2 numbers c r))"
  proof (cases "c = 0 \<or> r = 0")
    case True
    then show ?thesis by (simp add: generate_pdf_zero)
  next
    case False
    then have nz: "c \<noteq> 0" "r \<noteq> 0" by auto
    let ?im1 = "\<lambda>n. if n \<in> set numbers \<and> image_ok e1 n then Some (barcode_path_of (temp_dir e1) n) else None"
    let ?im2 = "\<lambda>n. if n \<in> set numbers \<and> image_ok e2 n then Some (barcode_path_of (temp_dir e2) n) else None"
    have same: "\<forall>n. (?im1 n = None) = (?im2 n = None)" using assms(2) by simp
    have "placements (layout_loop e1 ?im1 (page_geometry (mm e2) c r)
             (available_width (page_geometry (mm e2) c r) / of_int c)
             (available_height (page_geometry (mm e2) c r) / of_int r) new_canvas numbers) =
          placements (layout_loop e2 ?im2 (page_geometry (mm e2) c r)
             (available_width (page_geometry (mm e2) c r) / of_int c)
             (available_height (page_geometry (mm e2) c r) / of_int r) new_canvas numbers)"
      using layout_loop_placements[OF same assms(3)] by blast
    then show ?thesis
      by (simp only: generate_pdf_canvas[OF nz] assms(1) map_sum.simps id_apply)
  qed
  with fs show ?thesis by blast
qed

text \<open>Two calls with different temporary directories and different file systems.\<close>

theorem layout_deterministic_witness:
  "mm (demo_env all_ok) = mm ((demo_env all_ok)\<lparr>temp_dir := ''/tmp/barcode_pdf_b''\<rparr>) \<and>
   image_ok (demo_env all_ok) = image_ok ((demo_env all_ok)\<lparr>temp_dir := ''/tmp/barcode_pdf_b''\<rparr>) \<and>
   draw_ok (demo_env all_ok) = draw_ok ((demo_env all_ok)\<lparr>temp_dir := ''/tmp/barcode_pdf_b''\<rparr>) \<and>
   temp_dir (demo_env all_ok) \<notin> dom no_files \<and>
   map_sum id placements (fst (generate_pdf_from_numbers (demo_env all_ok) no_files [''1'', ''2''] 4 8)) =
   map_sum id placements
     (fst (generate_pdf_from_numbers ((demo_env all_ok)\<lparr>temp_dir := ''/tmp/barcode_pdf_b''\<rparr>)
        [''/tmp/barcode_pdf_a'' \<mapsto> {''old.png''}] [''1'', ''2''] 4 8)) \<and>
   snd (generate_pdf_from_numbers (demo_env all_ok) no_files [''1'', ''2''] 4 8) = no_files"
  using layout_deterministic[of "demo_env all_ok" "(demo_env all_ok)\<lparr>temp_dir := ''/tmp/barcode_pdf_b''\<rparr>"
      no_files "[''1'', ''2'']" 4 8 "[''/tmp/barcode_pdf_a'' \<mapsto> {''old.png''}]"]
  by (simp add: no_files_def)

section \<open>The labels of a sheet\<close>

text \<open>
  The sheet of six rows, read by both files: the empty cell and the text that is no
  number are skipped, the float is truncated.
\<close>

lemma demo_sheet_labels:
  "cells demo_sheet =
     [PyInt 253310001, PyNone, PyStr ''n/a'', PyStr ''253310007'', PyFloat (Finite 42.9)] \<and>
   api_read_numbers demo_parse demo_sheet = [''253310001'', ''253310007'', ''42''] \<and>
   script_read_numbers demo_parse demo_sheet = Inr [''253310001'', ''253310007'', ''42'']"
proof -
  have c: "cells demo_sheet =
     [PyInt 253310001, PyNone, PyStr ''n/a'', PyStr ''253310007'', PyFloat (Finite 42.9)]"
    by (simp add: cells_def demo_sheet_def demo_column_def upt_rec)
  have t: "toward_zero 42.9 = 42" by (simp add: toward_zero_def)
  have i: "PyFloat Infinite \<notin> set (cells demo_sheet)" by (simp add: c)
  show ?thesis
    using api_sheet_labels[of demo_parse demo_sheet] script_sheet_labels[OF i, of demo_parse]
    by (simp add: c kept_def label_of_def demo_parse_def py_str_examples t)
qed

text \<open>
  Claim C9, at an input where the code departs from it. Column A holds the number
  253310001 in row 2 and an infinite float in row 3. The reading of \<^verbatim>\<open>barcode_app.py\<close>
  skips the infinite cell and returns the one label. The reading of \<^verbatim>\<open>eg.py\<close> catches
  \<^verbatim>\<open>ValueError\<close> and \<^verbatim>\<open>TypeError\<close> only: the \<^verbatim>\<open>OverflowError\<close> of the
  conversion leaves the loop, and \<^verbatim>\<open>generate_pdf_from_excel\<close> ends with that exception,
  with no label and no canvas.
\<close>

theorem script_stops_at_infinite_cell:
  "cells infinite_sheet = [PyInt 253310001, PyFloat Infinite] \<and>
   api_read_numbers demo_parse infinite_sheet = [''253310001''] \<and>
   script_read_numbers demo_parse infinite_sheet = Inl OverflowError \<and>
   generate_pdf_from_excel demo_parse (demo_env all_ok) no_files (Some infinite_sheet) 4 8 =
     (Inl OverflowError, no_files)"
proof -
  have c: "cells infinite_sheet = [PyInt 253310001, PyFloat Infinite]"
    by (simp add: cells_def infinite_sheet_def infinite_column_def upt_rec)
  have a: "api_read_numbers demo_parse infinite_sheet = [''253310001'']"
    by (simp add: api_sheet_labels c kept_def label_of_def py_str_examples)
  have s: "script_read_numbers demo_parse infinite_sheet = Inl OverflowError"
    by (rule script_sheet_overflow) (simp add: c)
  show ?thesis
    using c a s by (simp add: generate_pdf_from_excel_def)
qed

section \<open>The count of a new workbook\<close>

text \<open>
  Claim C10. When the requested count converts to an integer below 1 or above 5000, the
  response is an error and the output folder is unchanged: the message about the range,
  or the server error of a start number that does not convert. When the start number
  \<open>s\<close> and a count \<open>n\<close> from 1 to 5000 convert, the numbers handed to the workbook writer
  are exactly \<open>s, s + 1, \<dots>, s + n - 1\<close>, in increasing order, \<open>n\<close> of them; the response
  follows the writer.
\<close>

theorem create_excel_count_range:
  "(py_int parse (get_or (count data) (PyInt 10)) = Inr n \<and> (n < 1 \<or> 5000 < n) \<longrightarrow>
      create_excel_api parse img_ok writable outs data =
        (case py_int parse (get_or (startNum data) (PyInt 253310001)) of
           Inl err \<Rightarrow> ServerError err
         | Inr s \<Rightarrow> BadRequest ''Count must be between 1 and 5000'',
         outs)) \<and>
   (py_int parse (get_or (startNum data) (PyInt 253310001)) = Inr s \<and>
    py_int parse (get_or (count data) (PyInt 10)) = Inr n \<and> 1 \<le> n \<and> n \<le> 5000 \<longrightarrow>
      create_excel_api parse img_ok writable outs data =
        (case create_excel_with_barcodes img_ok writable outs [s..s + n - 1]
                (get_or (fileName data) ''barcodes.xlsx'') of
           Inl err \<Rightarrow> (ServerError err, outs)
         | Inr outs' \<Rightarrow>
             (ExcelCreated (get_or (fileName data) ''barcodes.xlsx'') n s (s + n - 1), outs')) \<and>
      length [s..s + n - 1] = nat n)"
proof -
  have a: "create_excel_api parse img_ok writable outs data =
        (case py_int parse (get_or (startNum data) (PyInt 253310001)) of
           Inl err \<Rightarrow> ServerError err
         | Inr s \<Rightarrow> BadRequest ''Count must be between 1 and 5000'',
         outs)"
    if "py_int parse (get_or (count data) (PyInt 10)) = Inr n" "n < 1 \<or> 5000 < n"
    using that by (auto simp: create_excel_api_def Let_def split: sum.splits)
  have b: "create_excel_api parse img_ok writable outs data =
        (case create_excel_with_barcodes img_ok writable outs [s..s + n - 1]
                (get_or (fileName data) ''barcodes.xlsx'') of
           Inl err \<Rightarrow> (ServerError err, outs)
         | Inr outs' \<Rightarrow>
             (ExcelCreated (get_or (fileName data) ''barcodes.xlsx'') n s (s + n - 1), outs')) \<and>
      length [s..s + n - 1] = nat n"
    if "py_int parse (get_or (startNum data) (PyInt 253310001)) = Inr s"
      "py_int parse (get_or (count data) (PyInt 10)) = Inr n" "1 \<le> n" "n \<le> 5000"
  proof -
    have "map (\<lambda>i. s + int i) [0..<nat n] = [s..s + n - 1]"
      using consecutive_numbers[of s "nat n"] that(3) by simp
    then show ?thesis
      using that by (simp add: create_excel_api_def Let_def)
  qed
  show ?thesis using a b by blast
qed

text \<open>A count of 5001 is refused; a count of 3 from 253310001 writes three rows.\<close>

theorem create_excel_count_range_witness:
  "py_int demo_parse (get_or (count (demo_request 253310001 5001)) (PyInt 10)) = Inr 5001 \<and>
   ((5001::int) < 1 \<or> (5000::int) < 5001) \<and>
   create_excel_api demo_parse all_ok all_ok no_outputs (demo_request 253310001 5001) =
     (BadRequest ''Count must be between 1 and 5000'', no_outputs) \<and>
   py_int demo_parse (get_or (startNum (demo_request 253310001 3)) (PyInt 253310001)) = Inr 253310001 \<and>
   py_int demo_parse (get_or (count (demo_request 253310001 3)) (PyInt 10)) = Inr 3 \<and>
   (1::int) \<le> 3 \<and> (3::int) \<le> 5000 \<and>
   create_excel_api demo_parse all_ok all_ok no_outputs (demo_request 253310001 3) =
     (ExcelCreated ''sheet.xlsx'' 3 253310001 253310003,
      no_outputs(''sheet.xlsx'' \<mapsto> [(253310001, True), (253310002, True), (253310003, True)]))"
proof -
  have u: "[253310001..253310003] = [253310001, 253310002, 253310003::int]"
    by (simp add: upto_rec1)
  show ?thesis
    using create_excel_count_range[where parse=demo_parse and data="demo_request 253310001 5001"
        and n=5001 and img_ok=all_ok and writable=all_ok and outs=no_outputs and s=253310001,
        THEN conjunct1]
      create_excel_count_range[where parse=demo_parse and data="demo_request 253310001 3"
        and n=3 and img_ok=all_ok and writable=all_ok and outs=no_outputs and s=253310001,
        THEN conjunct2]
    by (simp add: demo_request_def get_or_def all_ok_def u create_excel_with_barcodes_def)
qed

end
